theory Spec2Isabelle
  imports Main
begin

section \<open>The file status model of \<^verbatim>\<open>app/src/models/status.ts\<close>\<close>

subsection \<open>Classification of a change\<close>

text \<open>
  \<^verbatim>\<open>enum AppFileStatusKind\<close>: a string enum, each member's value is its own name.
\<close>

datatype AppFileStatusKind =
  New | Modified | Deleted | Copied | Renamed | Conflicted | Resolved

fun kind_value :: "AppFileStatusKind \<Rightarrow> string" where
  "kind_value New = ''New''"
| "kind_value Modified = ''Modified''"
| "kind_value Deleted = ''Deleted''"
| "kind_value Copied = ''Copied''"
| "kind_value Renamed = ''Renamed''"
| "kind_value Conflicted = ''Conflicted''"
| "kind_value Resolved = ''Resolved''"

text \<open>
  \<^verbatim>\<open>type AppFileStatus = PlainFileStatus | CopiedOrRenamedFileStatus |
  ConflictedFileStatus | ResolvedFileStatus\<close>, a union discriminated by \<^verbatim>\<open>kind\<close>.
  The values of the union are: the three plain kinds with no payload, the kinds Copied
  and Renamed carrying \<^verbatim>\<open>oldPath\<close>, the kind Conflicted carrying
  \<^verbatim>\<open>conflictStatus\<close>, and Resolved. The type \<^verbatim>\<open>ConflictFileStatus\<close> is
  imported from \<^verbatim>\<open>./conflicts\<close>; it is the type parameter \<open>'c\<close>.
\<close>

datatype 'c AppFileStatus =
  NewStatus
| ModifiedStatus
| DeletedStatus
| CopiedStatus (oldPath: string)
| RenamedStatus (oldPath: string)
| ConflictedStatus (conflictStatus: 'c)
| ResolvedStatus

fun kind :: "'c AppFileStatus \<Rightarrow> AppFileStatusKind" where
  "kind NewStatus = New"
| "kind ModifiedStatus = Modified"
| "kind DeletedStatus = Deleted"
| "kind (CopiedStatus p) = Copied"
| "kind (RenamedStatus p) = Renamed"
| "kind (ConflictedStatus c) = Conflicted"
| "kind ResolvedStatus = Resolved"

text \<open>
  The \<^verbatim>\<open>oldPath\<close> property as an optional value: present on the two shapes that
  declare it. It is used to say when two statuses agree on \<^verbatim>\<open>(kind, oldPath)\<close>.
\<close>

fun oldPath_opt :: "'c AppFileStatus \<Rightarrow> string option" where
  "oldPath_opt (CopiedStatus p) = Some p"
| "oldPath_opt (RenamedStatus p) = Some p"
| "oldPath_opt s = None"

subsection \<open>FileChange and its two subclasses\<close>

text \<open>
  \<^verbatim>\<open>class FileChange\<close> has the readonly fields \<^verbatim>\<open>path\<close>, \<^verbatim>\<open>status\<close> and
  \<^verbatim>\<open>id\<close>. The field \<^verbatim>\<open>id\<close> is written \<open>id'\<close>, since \<open>id\<close> is the identity
  function of HOL.
\<close>

record 'c FileChange =
  path :: string
  status :: "'c AppFileStatus"
  id' :: string

text \<open>
  The constructor (lines 111 to 123). The template literals concatenate the enum's
  string value, the path and, in the first branch only, \<^verbatim>\<open>status.oldPath\<close>.
\<close>

definition FileChange_id :: "string \<Rightarrow> 'c AppFileStatus \<Rightarrow> string" where
  "FileChange_id p st =
     (if kind st = Renamed \<or> kind st = Copied
      then kind_value (kind st) @ ''+'' @ p @ ''+'' @ oldPath st
      else kind_value (kind st) @ ''+'' @ p)"

definition FileChange_new :: "string \<Rightarrow> 'c AppFileStatus \<Rightarrow> 'c FileChange" where
  "FileChange_new p st = \<lparr> path = p, status = st, id' = FileChange_id p st \<rparr>"

text \<open>
  \<^verbatim>\<open>class WorkingDirectoryFileChange extends FileChange\<close> adds \<^verbatim>\<open>selection\<close>, a
  \<^verbatim>\<open>DiffSelection\<close>. That class is imported from \<^verbatim>\<open>./diff\<close>; its values are the
  type parameter \<open>'s\<close>.
\<close>

record ('c, 's) WorkingDirectoryFileChange = "'c FileChange" +
  selection :: 's

definition WorkingDirectoryFileChange_new ::
  "string \<Rightarrow> 'c AppFileStatus \<Rightarrow> 's \<Rightarrow> ('c, 's) WorkingDirectoryFileChange" where
  "WorkingDirectoryFileChange_new p st sel =
     FileChange.extend (FileChange_new p st)
       (WorkingDirectoryFileChange.fields sel)"

text \<open>\<^verbatim>\<open>class CommittedFileChange extends FileChange\<close> adds \<^verbatim>\<open>commitish\<close>.\<close>

record 'c CommittedFileChange = "'c FileChange" +
  commitish :: string

definition CommittedFileChange_new ::
  "string \<Rightarrow> 'c AppFileStatus \<Rightarrow> string \<Rightarrow> 'c CommittedFileChange" where
  "CommittedFileChange_new p st c =
     FileChange.extend (FileChange_new p st) (CommittedFileChange.fields c)"

subsection \<open>The diff selection collaborator\<close>

text \<open>
  \<^verbatim>\<open>enum DiffSelectionType\<close> of \<^verbatim>\<open>./diff\<close>: All, Partial, None. The members
  carry the suffix \<open>Sel\<close>, since \<open>All\<close> and \<open>None\<close> are constants of HOL.
\<close>

datatype DiffSelectionType = AllSel | PartialSel | NoneSel

text \<open>
  The class \<^verbatim>\<open>DiffSelection\<close> is not part of this file. The model takes its three
  methods that \<^verbatim>\<open>status.ts\<close> calls as a parameter: a record of functions over the
  type \<open>'s\<close> of selection values.
\<close>

record 's DiffSelection =
  getSelectionType :: "'s \<Rightarrow> DiffSelectionType"
  withSelectAll :: "'s \<Rightarrow> 's"
  withSelectNone :: "'s \<Rightarrow> 's"

subsection \<open>Selection updates of a WorkingDirectoryFileChange\<close>

text \<open>\<^verbatim>\<open>withSelection\<close> (lines 152 to 154): a new object from the old path and status.\<close>

definition withSelection ::
  "('c, 's) WorkingDirectoryFileChange \<Rightarrow> 's \<Rightarrow> ('c, 's) WorkingDirectoryFileChange" where
  "withSelection this sel = WorkingDirectoryFileChange_new (path this) (status this) sel"

text \<open>\<^verbatim>\<open>withIncludeAll\<close> (lines 143 to 149).\<close>

definition withIncludeAll ::
  "'s DiffSelection \<Rightarrow> ('c, 's) WorkingDirectoryFileChange \<Rightarrow> bool \<Rightarrow>
   ('c, 's) WorkingDirectoryFileChange" where
  "withIncludeAll D this include =
     (let newSelection =
        (if include then withSelectAll D (selection this)
         else withSelectNone D (selection this))
      in withSelection this newSelection)"

subsection \<open>WorkingDirectoryStatus\<close>

text \<open>
  \<^verbatim>\<open>getIncludeAllState\<close> (lines 223 to 245). The result type \<^verbatim>\<open>boolean | null\<close> is
  \<open>bool option\<close>, with \<open>None\<close> for \<^verbatim>\<open>null\<close>. \<^verbatim>\<open>Array.prototype.every\<close> is
  \<open>list_all\<close>.
\<close>

definition getIncludeAllState ::
  "'s DiffSelection \<Rightarrow> ('c, 's) WorkingDirectoryFileChange list \<Rightarrow> bool option" where
  "getIncludeAllState D fs =
     (if length fs = 0 then Some True
      else
        let allSelected = list_all (\<lambda>f. getSelectionType D (selection f) = AllSel) fs;
            noneSelected = list_all (\<lambda>f. getSelectionType D (selection f) = NoneSel) fs
        in if allSelected then Some True
           else if noneSelected then Some False
           else None)"

text \<open>
  The class has the public fields \<^verbatim>\<open>files\<close> and \<^verbatim>\<open>includeAll\<close> and the private
  \<^verbatim>\<open>fileIxById\<close>, a \<^verbatim>\<open>Map<string, number>\<close>: a partial map from ids to
  positions.
\<close>

record ('c, 's) WorkingDirectoryStatus =
  files :: "('c, 's) WorkingDirectoryFileChange list"
  includeAll :: "bool option"
  fileIxById :: "string \<rightharpoonup> nat"

text \<open>
  The loop of the constructor (line 199),
  \<^verbatim>\<open>files.forEach((f, ix) => this.fileIxById.set(f.id, ix))\<close>: the files from left to
  right, \<open>ix\<close> the position of the next one, each \<^verbatim>\<open>set\<close> overwriting an earlier
  entry of the same key.
\<close>

fun setFileIxById ::
  "(string \<rightharpoonup> nat) \<Rightarrow> nat \<Rightarrow> ('c, 's) WorkingDirectoryFileChange list \<Rightarrow> (string \<rightharpoonup> nat)" where
  "setFileIxById m ix [] = m"
| "setFileIxById m ix (f # fs) = setFileIxById (m(id' f \<mapsto> ix)) (Suc ix) fs"

text \<open>
  The private constructor (lines 195 to 200). Both callers pass \<^verbatim>\<open>includeAll\<close>, so
  the default value of the parameter is never taken.
\<close>

definition WorkingDirectoryStatus_new ::
  "('c, 's) WorkingDirectoryFileChange list \<Rightarrow> bool option \<Rightarrow> ('c, 's) WorkingDirectoryStatus" where
  "WorkingDirectoryStatus_new fs ia =
     \<lparr> files = fs, includeAll = ia, fileIxById = setFileIxById Map.empty 0 fs \<rparr>"

text \<open>\<^verbatim>\<open>fromFiles\<close> (lines 183 to 187).\<close>

definition fromFiles ::
  "'s DiffSelection \<Rightarrow> ('c, 's) WorkingDirectoryFileChange list \<Rightarrow> ('c, 's) WorkingDirectoryStatus" where
  "fromFiles D fs = WorkingDirectoryStatus_new fs (getIncludeAllState D fs)"

text \<open>\<^verbatim>\<open>withIncludeAllFiles\<close> (lines 205 to 208).\<close>

definition withIncludeAllFiles ::
  "'s DiffSelection \<Rightarrow> ('c, 's) WorkingDirectoryStatus \<Rightarrow> bool \<Rightarrow> ('c, 's) WorkingDirectoryStatus" where
  "withIncludeAllFiles D this b =
     (let newFiles = map (\<lambda>f. withIncludeAll D f b) (files this)
      in WorkingDirectoryStatus_new newFiles (Some b))"

text \<open>
  \<^verbatim>\<open>findFileWithID\<close> (lines 211 to 214). \<^verbatim>\<open>Map.get\<close> gives \<^verbatim>\<open>undefined\<close> for an
  absent key. Reading \<^verbatim>\<open>this.files[ix]\<close> past the end gives \<^verbatim>\<open>undefined\<close>, which
  \<^verbatim>\<open>|| null\<close> turns into \<^verbatim>\<open>null\<close>; an object is never falsy. The result
  \<^verbatim>\<open>null\<close> is \<open>None\<close>.
\<close>

definition findFileWithID ::
  "('c, 's) WorkingDirectoryStatus \<Rightarrow> string \<Rightarrow> ('c, 's) WorkingDirectoryFileChange option" where
  "findFileWithID this k =
     (case fileIxById this k of
        Some ix \<Rightarrow> (if ix < length (files this) then Some (files this ! ix) else None)
      | None \<Rightarrow> None)"

text \<open>\<^verbatim>\<open>findFileIndexByID\<close> (lines 217 to 220).\<close>

definition findFileIndexByID :: "('c, 's) WorkingDirectoryStatus \<Rightarrow> string \<Rightarrow> int" where
  "findFileIndexByID this k =
     (case fileIxById this k of Some ix \<Rightarrow> int ix | None \<Rightarrow> - 1)"

subsection \<open>A collaborator for the closed examples\<close>

text \<open>
  The examples below need one concrete implementation of the three methods. In
  \<open>triState\<close> a selection value is nothing but its own selection type, selecting all
  gives \<open>AllSel\<close> and selecting none gives \<open>NoneSel\<close>. No general statement depends on
  it: every theorem is about an arbitrary \<open>D\<close>.
\<close>

definition triState :: "DiffSelectionType DiffSelection" where
  "triState =
     \<lparr> getSelectionType = (\<lambda>s. s),
       withSelectAll = (\<lambda>s. AllSel),
       withSelectNone = (\<lambda>s. NoneSel) \<rparr>"

section \<open>Properties\<close>

subsection \<open>Fields of constructed objects\<close>

lemma WorkingDirectoryFileChange_new_fields:
  "path (WorkingDirectoryFileChange_new p st sel) = p"
  "status (WorkingDirectoryFileChange_new p st sel) = st"
  "id' (WorkingDirectoryFileChange_new p st sel) = FileChange_id p st"
  "selection (WorkingDirectoryFileChange_new p st sel) = sel"
  by (simp_all add: WorkingDirectoryFileChange_new_def FileChange_new_def
      FileChange.defs WorkingDirectoryFileChange.defs)

lemma CommittedFileChange_new_fields:
  "path (CommittedFileChange_new p st c) = p"
  "status (CommittedFileChange_new p st c) = st"
  "id' (CommittedFileChange_new p st c) = FileChange_id p st"
  "commitish (CommittedFileChange_new p st c) = c"
  by (simp_all add: CommittedFileChange_new_def FileChange_new_def
      FileChange.defs CommittedFileChange.defs)

lemma WorkingDirectoryStatus_new_fields:
  "files (WorkingDirectoryStatus_new fs ia) = fs"
  "includeAll (WorkingDirectoryStatus_new fs ia) = ia"
  "fileIxById (WorkingDirectoryStatus_new fs ia) = setFileIxById Map.empty 0 fs"
  by (simp_all add: WorkingDirectoryStatus_new_def)

lemma withIncludeAllFiles_files:
  "files (withIncludeAllFiles D this b) = map (\<lambda>f. withIncludeAll D f b) (files this)"
  by (simp add: withIncludeAllFiles_def WorkingDirectoryStatus_new_fields)

lemma withIncludeAllFiles_includeAll:
  "includeAll (withIncludeAllFiles D this b) = Some b"
  by (simp add: withIncludeAllFiles_def WorkingDirectoryStatus_new_fields)

lemma withIncludeAll_selection:
  "selection (withIncludeAll D f b) =
     (if b then withSelectAll D (selection f) else withSelectNone D (selection f))"
  by (simp add: withIncludeAll_def withSelection_def WorkingDirectoryFileChange_new_fields)

lemma FileChange_id_cases:
  "FileChange_id p (NewStatus :: 'c AppFileStatus) = ''New+'' @ p"
  "FileChange_id p (ModifiedStatus :: 'c AppFileStatus) = ''Modified+'' @ p"
  "FileChange_id p (DeletedStatus :: 'c AppFileStatus) = ''Deleted+'' @ p"
  "FileChange_id p (CopiedStatus q :: 'c AppFileStatus) = ''Copied+'' @ p @ ''+'' @ q"
  "FileChange_id p (RenamedStatus q :: 'c AppFileStatus) = ''Renamed+'' @ p @ ''+'' @ q"
  "FileChange_id p (ConflictedStatus c :: 'c AppFileStatus) = ''Conflicted+'' @ p"
  "FileChange_id p (ResolvedStatus :: 'c AppFileStatus) = ''Resolved+'' @ p"
  by (simp_all add: FileChange_id_def)

lemma FileChange_id_cong:
  "kind s1 = kind s2 \<Longrightarrow> oldPath_opt s1 = oldPath_opt s2 \<Longrightarrow>
   FileChange_id p s1 = FileChange_id p s2"
  by (cases s1; cases s2) (simp_all add: FileChange_id_cases)

subsection \<open>The id of a FileChange\<close>

text \<open>
  C1. The id stored by the constructor is kind + "+" + path + "+" + oldPath when the
  kind of the status is Renamed or Copied, and kind + "+" + path for every other kind.
  In particular the change of path b.txt renamed from a.txt has the id
  Renamed+b.txt+a.txt, and two statuses that agree on kind and oldPath give, with the
  same path, the same id (whatever else they carry, such as the conflict detail).
\<close>

theorem FileChange_id_derivation:
  fixes st s1 s2 :: "'c AppFileStatus"
  shows
  "(kind st = Renamed \<or> kind st = Copied \<longrightarrow>
      id' (FileChange_new p st) = kind_value (kind st) @ ''+'' @ p @ ''+'' @ oldPath st) \<and>
   (kind st \<noteq> Renamed \<and> kind st \<noteq> Copied \<longrightarrow>
      id' (FileChange_new p st) = kind_value (kind st) @ ''+'' @ p) \<and>
   id' (FileChange_new p (RenamedStatus q :: 'c AppFileStatus)) = ''Renamed+'' @ p @ ''+'' @ q \<and>
   id' (FileChange_new p (CopiedStatus q :: 'c AppFileStatus)) = ''Copied+'' @ p @ ''+'' @ q \<and>
   id' (FileChange_new ''b.txt'' (RenamedStatus ''a.txt'' :: 'c AppFileStatus))
     = ''Renamed+b.txt+a.txt'' \<and>
   (kind s1 = kind s2 \<and> oldPath_opt s1 = oldPath_opt s2 \<longrightarrow>
      id' (FileChange_new p s1) = id' (FileChange_new p s2))"
proof -
  have sel: "\<And>x :: 'c AppFileStatus. id' (FileChange_new p x) = FileChange_id p x"
    by (simp add: FileChange_new_def)
  have ex: "id' (FileChange_new ''b.txt'' (RenamedStatus ''a.txt'' :: 'c AppFileStatus))
     = ''Renamed+b.txt+a.txt''"
    by (simp add: FileChange_new_def FileChange_id_cases)
  have cg: "kind s1 = kind s2 \<and> oldPath_opt s1 = oldPath_opt s2 \<longrightarrow>
      id' (FileChange_new p s1) = id' (FileChange_new p s2)"
    using FileChange_id_cong [of s1 s2 p] by (simp add: sel)
  show ?thesis
    using ex cg by (simp add: sel FileChange_id_def FileChange_id_cases)
qed

theorem FileChange_id_derivation_witness:
  "id' (FileChange_new ''x'' (CopiedStatus ''y'' :: bool AppFileStatus)) = ''Copied+x+y'' \<and>
   id' (FileChange_new ''x'' (DeletedStatus :: bool AppFileStatus)) = ''Deleted+x'' \<and>
   id' (FileChange_new ''x'' (ConflictedStatus True)) =
     id' (FileChange_new ''x'' (ConflictedStatus False))"
  using FileChange_id_derivation [of "CopiedStatus ''y''" "''x''" "''y''"
          "ConflictedStatus True" "ConflictedStatus False"]
        FileChange_id_derivation [of "DeletedStatus :: bool AppFileStatus" "''x''" "''y''"
          "ConflictedStatus True" "ConflictedStatus False"]
  by simp

text \<open>
  C10. The id of a CommittedFileChange does not depend on the commitish: two objects
  built from the same path and status and any two commitish strings have the same id,
  the one the base constructor derives from path and status. The commitish itself is
  kept in its own field.
\<close>

theorem CommittedFileChange_id_ignores_commitish:
  "id' (CommittedFileChange_new p st c1) = id' (CommittedFileChange_new p st c2) \<and>
   id' (CommittedFileChange_new p st c1) = id' (FileChange_new p st) \<and>
   commitish (CommittedFileChange_new p st c1) = c1 \<and>
   id' (CommittedFileChange_new ''f'' (ModifiedStatus :: 'c AppFileStatus) ''abc123'')
     = ''Modified+f'' \<and>
   id' (CommittedFileChange_new ''f'' (ModifiedStatus :: 'c AppFileStatus) ''HEAD'')
     = ''Modified+f''"
  by (simp add: CommittedFileChange_new_fields FileChange_new_def FileChange_id_cases)

subsection \<open>Selection updates keep path, status and id\<close>

text \<open>
  C7. Both \<^verbatim>\<open>withSelection\<close> and \<^verbatim>\<open>withIncludeAll\<close> return an object with the path
  and the status of the original; only the selection differs: it is the given one, or
  the collaborator's all or none selection of the old one. The id is derived again
  from the same path and status, so for an object built by the constructor (the only
  way the class makes one) it is the id of the original. That the result is a new
  object is the \<^verbatim>\<open>new\<close> of the source; values of the model have no object identity.
\<close>

theorem selection_update_preserves_identity:
  "path (withSelection this sel') = path this \<and>
   status (withSelection this sel') = status this \<and>
   selection (withSelection this sel') = sel' \<and>
   path (withIncludeAll D this b) = path this \<and>
   status (withIncludeAll D this b) = status this \<and>
   selection (withIncludeAll D this b) =
     (if b then withSelectAll D (selection this) else withSelectNone D (selection this)) \<and>
   id' (withSelection (WorkingDirectoryFileChange_new p st sel) sel') =
     id' (WorkingDirectoryFileChange_new p st sel) \<and>
   id' (withIncludeAll D (WorkingDirectoryFileChange_new p st sel) b) =
     id' (WorkingDirectoryFileChange_new p st sel)"
  by (simp add: withSelection_def withIncludeAll_def WorkingDirectoryFileChange_new_fields)

subsection \<open>The include-all state\<close>

text \<open>
  C2. The value that \<^verbatim>\<open>getIncludeAllState\<close> computes is true for the empty list. For a
  list that is not empty it is true exactly when every file reports the selection type
  All, false exactly when every file reports None, and null exactly when neither holds.
  The test for All comes first: whenever every file reports All the result is true.
  \<^verbatim>\<open>fromFiles\<close> stores this value in \<^verbatim>\<open>includeAll\<close>.
\<close>

theorem getIncludeAllState_tri_state:
  "getIncludeAllState D ([] :: ('c, 's) WorkingDirectoryFileChange list) = Some True \<and>
   (fs \<noteq> [] \<longrightarrow>
      (getIncludeAllState D fs = Some True \<longleftrightarrow>
         (\<forall>f \<in> set fs. getSelectionType D (selection f) = AllSel)) \<and>
      (getIncludeAllState D fs = Some False \<longleftrightarrow>
         (\<forall>f \<in> set fs. getSelectionType D (selection f) = NoneSel)) \<and>
      (getIncludeAllState D fs = None \<longleftrightarrow>
         \<not> (\<forall>f \<in> set fs. getSelectionType D (selection f) = AllSel) \<and>
         \<not> (\<forall>f \<in> set fs. getSelectionType D (selection f) = NoneSel))) \<and>
   ((\<forall>f \<in> set fs. getSelectionType D (selection f) = AllSel) \<longrightarrow>
      getIncludeAllState D fs = Some True) \<and>
   includeAll (fromFiles D fs) = getIncludeAllState D fs"
proof -
  have empty: "getIncludeAllState D ([] :: ('c, 's) WorkingDirectoryFileChange list) = Some True"
    by (simp add: getIncludeAllState_def)
  have excl: "\<not> ((\<forall>f \<in> set fs. getSelectionType D (selection f) = AllSel) \<and>
                 (\<forall>f \<in> set fs. getSelectionType D (selection f) = NoneSel))"
    if "fs \<noteq> []"
  proof
    assume h: "(\<forall>f \<in> set fs. getSelectionType D (selection f) = AllSel) \<and>
               (\<forall>f \<in> set fs. getSelectionType D (selection f) = NoneSel)"
    from that obtain f where "f \<in> set fs" by (cases fs) auto
    with h have "getSelectionType D (selection f) = AllSel"
      and "getSelectionType D (selection f) = NoneSel" by blast+
    then show False by simp
  qed
  have nonempty: "fs \<noteq> [] \<longrightarrow>
      (getIncludeAllState D fs = Some True \<longleftrightarrow>
         (\<forall>f \<in> set fs. getSelectionType D (selection f) = AllSel)) \<and>
      (getIncludeAllState D fs = Some False \<longleftrightarrow>
         (\<forall>f \<in> set fs. getSelectionType D (selection f) = NoneSel)) \<and>
      (getIncludeAllState D fs = None \<longleftrightarrow>
         \<not> (\<forall>f \<in> set fs. getSelectionType D (selection f) = AllSel) \<and>
         \<not> (\<forall>f \<in> set fs. getSelectionType D (selection f) = NoneSel))"
    using excl by (auto simp add: getIncludeAllState_def Let_def list_all_iff)
  have first: "(\<forall>f \<in> set fs. getSelectionType D (selection f) = AllSel) \<longrightarrow>
      getIncludeAllState D fs = Some True"
    by (simp add: getIncludeAllState_def Let_def list_all_iff)
  have stored: "includeAll (fromFiles D fs) = getIncludeAllState D fs"
    by (simp add: fromFiles_def WorkingDirectoryStatus_new_fields)
  from empty nonempty first stored show ?thesis by blast
qed

theorem getIncludeAllState_tri_state_witness:
  "getIncludeAllState triState
     [WorkingDirectoryFileChange_new ''a'' (NewStatus :: unit AppFileStatus) AllSel,
      WorkingDirectoryFileChange_new ''b'' NewStatus AllSel,
      WorkingDirectoryFileChange_new ''c'' NewStatus AllSel] = Some True \<and>
   getIncludeAllState triState
     [WorkingDirectoryFileChange_new ''a'' (NewStatus :: unit AppFileStatus) NoneSel,
      WorkingDirectoryFileChange_new ''b'' NewStatus NoneSel] = Some False \<and>
   getIncludeAllState triState
     [WorkingDirectoryFileChange_new ''a'' (NewStatus :: unit AppFileStatus) AllSel,
      WorkingDirectoryFileChange_new ''b'' NewStatus NoneSel] = None"
  using
    getIncludeAllState_tri_state [of triState
      "[WorkingDirectoryFileChange_new ''a'' (NewStatus :: unit AppFileStatus) AllSel,
        WorkingDirectoryFileChange_new ''b'' NewStatus AllSel,
        WorkingDirectoryFileChange_new ''c'' NewStatus AllSel]"]
    getIncludeAllState_tri_state [of triState
      "[WorkingDirectoryFileChange_new ''a'' (NewStatus :: unit AppFileStatus) NoneSel,
        WorkingDirectoryFileChange_new ''b'' NewStatus NoneSel]"]
    getIncludeAllState_tri_state [of triState
      "[WorkingDirectoryFileChange_new ''a'' (NewStatus :: unit AppFileStatus) AllSel,
        WorkingDirectoryFileChange_new ''b'' NewStatus NoneSel]"]
  by (simp add: triState_def WorkingDirectoryFileChange_new_fields getIncludeAllState_def)

subsection \<open>Selecting or deselecting every file\<close>

text \<open>
  C3. \<^verbatim>\<open>withIncludeAllFiles(b)\<close> returns the status built from the original files,
  each mapped through \<^verbatim>\<open>withIncludeAll(b)\<close>, in their order, with an index built for
  the new list, and with \<^verbatim>\<open>includeAll\<close> set to the argument itself. The field is not
  derived from the new list: on the empty status and \<^verbatim>\<open>false\<close> the field is false,
  where \<^verbatim>\<open>getIncludeAllState\<close> of the new, empty list is true.
\<close>

theorem withIncludeAllFiles_contract:
  "files (withIncludeAllFiles D this b) = map (\<lambda>f. withIncludeAll D f b) (files this) \<and>
   includeAll (withIncludeAllFiles D this b) = Some b \<and>
   fileIxById (withIncludeAllFiles D this b) =
     setFileIxById Map.empty 0 (map (\<lambda>f. withIncludeAll D f b) (files this)) \<and>
   includeAll (withIncludeAllFiles D
      (fromFiles D ([] :: ('c, 's) WorkingDirectoryFileChange list)) False) = Some False \<and>
   getIncludeAllState D (files (withIncludeAllFiles D
      (fromFiles D ([] :: ('c, 's) WorkingDirectoryFileChange list)) False)) = Some True"
  by (simp add: withIncludeAllFiles_files withIncludeAllFiles_includeAll
      withIncludeAllFiles_def fromFiles_def WorkingDirectoryStatus_new_fields
      getIncludeAllState_def)

text \<open>
  C4. When the collaborator's \<^verbatim>\<open>withSelectAll\<close> always yields a selection that
  reports the type All, \<^verbatim>\<open>withIncludeAllFiles(true)\<close> yields a status whose
  \<^verbatim>\<open>includeAll\<close> is true and all of whose files report All. The new list is as long
  as the old one, so for a status that is not empty the statement is about at least one
  file.
\<close>

theorem withIncludeAllFiles_True_selects_all:
  assumes "\<forall>s. getSelectionType D (withSelectAll D s) = AllSel"
  shows "includeAll (withIncludeAllFiles D this True) = Some True \<and>
         (\<forall>f \<in> set (files (withIncludeAllFiles D this True)).
            getSelectionType D (selection f) = AllSel) \<and>
         length (files (withIncludeAllFiles D this True)) = length (files this) \<and>
         (files this \<noteq> [] \<longrightarrow> files (withIncludeAllFiles D this True) \<noteq> [])"
  using assms
  by (auto simp add: withIncludeAllFiles_files withIncludeAllFiles_includeAll
      withIncludeAll_selection)

theorem withIncludeAllFiles_True_selects_all_witness:
  "includeAll (withIncludeAllFiles triState
     (fromFiles triState
        [WorkingDirectoryFileChange_new ''a'' (NewStatus :: unit AppFileStatus) PartialSel,
         WorkingDirectoryFileChange_new ''b'' ModifiedStatus NoneSel]) True) = Some True \<and>
   map (\<lambda>f. getSelectionType triState (selection f))
     (files (withIncludeAllFiles triState
       (fromFiles triState
        [WorkingDirectoryFileChange_new ''a'' (NewStatus :: unit AppFileStatus) PartialSel,
         WorkingDirectoryFileChange_new ''b'' ModifiedStatus NoneSel]) True))
     = [AllSel, AllSel]"
proof -
  have h: "\<forall>s. getSelectionType triState (withSelectAll triState s) = AllSel"
    by (simp add: triState_def)
  show ?thesis
    using withIncludeAllFiles_True_selects_all [OF h, of
        "fromFiles triState
        [WorkingDirectoryFileChange_new ''a'' (NewStatus :: unit AppFileStatus) PartialSel,
         WorkingDirectoryFileChange_new ''b'' ModifiedStatus NoneSel]"]
    by (simp add: withIncludeAllFiles_files withIncludeAllFiles_includeAll fromFiles_def
        WorkingDirectoryStatus_new_fields withIncludeAll_selection
        WorkingDirectoryFileChange_new_fields triState_def)
qed

text \<open>
  C8. When the collaborator's \<^verbatim>\<open>withSelectAll\<close> and \<^verbatim>\<open>withSelectNone\<close> yield
  selections that report All and None, selecting every file and then deselecting
  every file ends with every file reporting None (and the other order with every file
  reporting All), and applying \<^verbatim>\<open>withIncludeAllFiles\<close> twice with the same boolean
  leaves every file with the path, status, id and reported selection type that one
  application gives, and the same \<^verbatim>\<open>includeAll\<close>. The selection state of a file is
  read here as the selection type it reports: it is all the assumption on the
  collaborator speaks of.
\<close>

theorem withIncludeAllFiles_flip_and_idempotent:
  assumes "\<forall>s. getSelectionType D (withSelectAll D s) = AllSel"
      and "\<forall>s. getSelectionType D (withSelectNone D s) = NoneSel"
  shows "(\<forall>f \<in> set (files (withIncludeAllFiles D (withIncludeAllFiles D this True) False)).
            getSelectionType D (selection f) = NoneSel) \<and>
         (\<forall>f \<in> set (files (withIncludeAllFiles D (withIncludeAllFiles D this False) True)).
            getSelectionType D (selection f) = AllSel) \<and>
         map (\<lambda>f. (path f, status f, id' f, getSelectionType D (selection f)))
             (files (withIncludeAllFiles D (withIncludeAllFiles D this b) b)) =
         map (\<lambda>f. (path f, status f, id' f, getSelectionType D (selection f)))
             (files (withIncludeAllFiles D this b)) \<and>
         includeAll (withIncludeAllFiles D (withIncludeAllFiles D this b) b) =
         includeAll (withIncludeAllFiles D this b)"
  using assms
  by (auto simp add: withIncludeAllFiles_files withIncludeAllFiles_includeAll
      withIncludeAll_selection withIncludeAll_def withSelection_def
      WorkingDirectoryFileChange_new_fields)

theorem withIncludeAllFiles_flip_and_idempotent_witness:
  "map (\<lambda>f. getSelectionType triState (selection f))
     (files (withIncludeAllFiles triState (withIncludeAllFiles triState
       (fromFiles triState
        [WorkingDirectoryFileChange_new ''a'' (NewStatus :: unit AppFileStatus) PartialSel,
         WorkingDirectoryFileChange_new ''b'' ModifiedStatus AllSel]) True) False))
     = [NoneSel, NoneSel] \<and>
   map (\<lambda>f. getSelectionType triState (selection f))
     (files (withIncludeAllFiles triState (withIncludeAllFiles triState
       (fromFiles triState
        [WorkingDirectoryFileChange_new ''a'' (NewStatus :: unit AppFileStatus) PartialSel,
         WorkingDirectoryFileChange_new ''b'' ModifiedStatus AllSel]) True) True))
     = [AllSel, AllSel]"
proof -
  have h1: "\<forall>s. getSelectionType triState (withSelectAll triState s) = AllSel"
    by (simp add: triState_def)
  have h2: "\<forall>s. getSelectionType triState (withSelectNone triState s) = NoneSel"
    by (simp add: triState_def)
  show ?thesis
    using withIncludeAllFiles_flip_and_idempotent [OF h1 h2, of
        "fromFiles triState
        [WorkingDirectoryFileChange_new ''a'' (NewStatus :: unit AppFileStatus) PartialSel,
         WorkingDirectoryFileChange_new ''b'' ModifiedStatus AllSel]" True]
    by (simp add: withIncludeAllFiles_files withIncludeAllFiles_includeAll fromFiles_def
        WorkingDirectoryStatus_new_fields withIncludeAll_selection
        WorkingDirectoryFileChange_new_fields triState_def)
qed

subsection \<open>The index from ids to positions\<close>

lemma setFileIxById_absent:
  "k \<notin> id' ` set fs \<Longrightarrow> setFileIxById m n fs k = m k"
  by (induction fs arbitrary: m n) auto

lemma setFileIxById_last:
  "i < length fs \<Longrightarrow> id' (fs ! i) = k \<Longrightarrow>
   (\<forall>j. i < j \<and> j < length fs \<longrightarrow> id' (fs ! j) \<noteq> k) \<Longrightarrow>
   setFileIxById m n fs k = Some (n + i)"
proof (induction fs arbitrary: m n i)
  case Nil
  then show ?case by simp
next
  case (Cons f fs)
  show ?case
  proof (cases i)
    case 0
    have "k \<notin> id' ` set fs"
    proof
      assume "k \<in> id' ` set fs"
      then obtain j where j: "j < length fs" "id' (fs ! j) = k"
        by (auto simp add: in_set_conv_nth)
      with Cons.prems(3) 0 have "id' ((f # fs) ! Suc j) \<noteq> k" by auto
      with j show False by simp
    qed
    then have "setFileIxById (m(id' f \<mapsto> n)) (Suc n) fs k = (m(id' f \<mapsto> n)) k"
      by (rule setFileIxById_absent)
    with 0 Cons.prems(2) show ?thesis by simp
  next
    case (Suc i')
    have later: "\<forall>j. i' < j \<and> j < length fs \<longrightarrow> id' (fs ! j) \<noteq> k"
    proof (intro allI impI)
      fix j assume "i' < j \<and> j < length fs"
      with Cons.prems(3) Suc have "id' ((f # fs) ! Suc j) \<noteq> k" by auto
      then show "id' (fs ! j) \<noteq> k" by simp
    qed
    from Cons.prems(1,2) Suc have "i' < length fs" "id' (fs ! i') = k" by auto
    from Cons.IH [OF this later, of "m(id' f \<mapsto> n)" "Suc n"]
    have "setFileIxById (m(id' f \<mapsto> n)) (Suc n) fs k = Some (Suc n + i')" .
    moreover have "setFileIxById m n (f # fs) k = setFileIxById (m(id' f \<mapsto> n)) (Suc n) fs k"
      by (simp only: setFileIxById.simps)
    ultimately show ?thesis using Suc by simp
  qed
qed

lemma last_index_exists:
  "k \<in> id' ` set fs \<Longrightarrow>
   \<exists>i. i < length fs \<and> id' (fs ! i) = k \<and>
       (\<forall>j. i < j \<and> j < length fs \<longrightarrow> id' (fs ! j) \<noteq> k)"
proof (induction fs)
  case Nil
  then show ?case by simp
next
  case (Cons f fs)
  show ?case
  proof (cases "k \<in> id' ` set fs")
    case True
    from Cons.IH [OF True] obtain i where i: "i < length fs" "id' (fs ! i) = k"
      "\<forall>j. i < j \<and> j < length fs \<longrightarrow> id' (fs ! j) \<noteq> k" by blast
    have "\<forall>j. Suc i < j \<and> j < length (f # fs) \<longrightarrow> id' ((f # fs) ! j) \<noteq> k"
    proof (intro allI impI)
      fix j assume j: "Suc i < j \<and> j < length (f # fs)"
      then obtain j' where j': "j = Suc j'" by (cases j) auto
      with j i(3) show "id' ((f # fs) ! j) \<noteq> k" by auto
    qed
    with i(1,2) have "Suc i < length (f # fs) \<and> id' ((f # fs) ! Suc i) = k \<and>
       (\<forall>j. Suc i < j \<and> j < length (f # fs) \<longrightarrow> id' ((f # fs) ! j) \<noteq> k)" by simp
    then show ?thesis by blast
  next
    case False
    with Cons.prems have fk: "id' f = k" by auto
    have "\<forall>j. 0 < j \<and> j < length (f # fs) \<longrightarrow> id' ((f # fs) ! j) \<noteq> k"
    proof (intro allI impI)
      fix j assume j: "0 < j \<and> j < length (f # fs)"
      then obtain j' where j': "j = Suc j'" by (cases j) auto
      with j have "fs ! j' \<in> set fs" by simp
      with False j' show "id' ((f # fs) ! j) \<noteq> k" by auto
    qed
    with fk have "0 < length (f # fs) \<and> id' ((f # fs) ! 0) = k \<and>
       (\<forall>j. 0 < j \<and> j < length (f # fs) \<longrightarrow> id' ((f # fs) ! j) \<noteq> k)" by simp
    then show ?thesis by blast
  qed
qed

lemma fileIxById_Some_iff:
  "fileIxById (WorkingDirectoryStatus_new fs ia) k = Some i \<longleftrightarrow>
   i < length fs \<and> id' (fs ! i) = k \<and>
   (\<forall>j. i < j \<and> j < length fs \<longrightarrow> id' (fs ! j) \<noteq> k)"
proof
  assume L: "fileIxById (WorkingDirectoryStatus_new fs ia) k = Some i"
  then have S: "setFileIxById Map.empty 0 fs k = Some i"
    by (simp add: WorkingDirectoryStatus_new_fields)
  have "k \<in> id' ` set fs"
  proof (rule ccontr)
    assume "k \<notin> id' ` set fs"
    then have "setFileIxById Map.empty 0 fs k = Map.empty k" by (rule setFileIxById_absent)
    with S show False by simp
  qed
  from last_index_exists [OF this] obtain i' where i': "i' < length fs" "id' (fs ! i') = k"
      "\<forall>j. i' < j \<and> j < length fs \<longrightarrow> id' (fs ! j) \<noteq> k" by blast
  from setFileIxById_last [OF this, of Map.empty 0] S have "i = i'" by simp
  with i' show "i < length fs \<and> id' (fs ! i) = k \<and>
   (\<forall>j. i < j \<and> j < length fs \<longrightarrow> id' (fs ! j) \<noteq> k)" by simp
next
  assume R: "i < length fs \<and> id' (fs ! i) = k \<and>
   (\<forall>j. i < j \<and> j < length fs \<longrightarrow> id' (fs ! j) \<noteq> k)"
  then have "setFileIxById Map.empty 0 fs k = Some (0 + i)"
    using setFileIxById_last [of i fs k Map.empty 0] by blast
  then show "fileIxById (WorkingDirectoryStatus_new fs ia) k = Some i"
    by (simp add: WorkingDirectoryStatus_new_fields)
qed

lemma fileIxById_None_iff:
  "fileIxById (WorkingDirectoryStatus_new fs ia) k = None \<longleftrightarrow> k \<notin> id' ` set fs"
proof
  assume N: "fileIxById (WorkingDirectoryStatus_new fs ia) k = None"
  show "k \<notin> id' ` set fs"
  proof
    assume "k \<in> id' ` set fs"
    from last_index_exists [OF this] obtain i where "i < length fs \<and> id' (fs ! i) = k \<and>
       (\<forall>j. i < j \<and> j < length fs \<longrightarrow> id' (fs ! j) \<noteq> k)" by blast
    then have "fileIxById (WorkingDirectoryStatus_new fs ia) k = Some i"
      using fileIxById_Some_iff [of fs ia k i] by blast
    with N show False by simp
  qed
next
  assume "k \<notin> id' ` set fs"
  then have "setFileIxById Map.empty 0 fs k = Map.empty k" by (rule setFileIxById_absent)
  then show "fileIxById (WorkingDirectoryStatus_new fs ia) k = None"
    by (simp add: WorkingDirectoryStatus_new_fields)
qed

lemma find_at_last_index:
  assumes "i < length fs"
      and "\<forall>j. i < j \<and> j < length fs \<longrightarrow> id' (fs ! j) \<noteq> id' (fs ! i)"
  shows "findFileIndexByID (WorkingDirectoryStatus_new fs ia) (id' (fs ! i)) = int i"
    and "findFileWithID (WorkingDirectoryStatus_new fs ia) (id' (fs ! i)) = Some (fs ! i)"
proof -
  from assms have "fileIxById (WorkingDirectoryStatus_new fs ia) (id' (fs ! i)) = Some i"
    using fileIxById_Some_iff [of fs ia "id' (fs ! i)" i] by blast
  with assms(1)
  show "findFileIndexByID (WorkingDirectoryStatus_new fs ia) (id' (fs ! i)) = int i"
    and "findFileWithID (WorkingDirectoryStatus_new fs ia) (id' (fs ! i)) = Some (fs ! i)"
    by (simp_all add: findFileIndexByID_def findFileWithID_def WorkingDirectoryStatus_new_fields)
qed

lemma shadowed_index_unreachable:
  assumes "i < j" and "j < length fs" and "id' (fs ! i) = id' (fs ! j)"
  shows "findFileIndexByID (WorkingDirectoryStatus_new fs ia) k \<noteq> int i"
proof
  assume eq: "findFileIndexByID (WorkingDirectoryStatus_new fs ia) k = int i"
  have "fileIxById (WorkingDirectoryStatus_new fs ia) k = Some i"
  proof (cases "fileIxById (WorkingDirectoryStatus_new fs ia) k")
    case None
    with eq show ?thesis by (simp add: findFileIndexByID_def)
  next
    case (Some ix)
    with eq show ?thesis by (simp add: findFileIndexByID_def)
  qed
  then have "id' (fs ! i) = k"
    and "\<forall>j. i < j \<and> j < length fs \<longrightarrow> id' (fs ! j) \<noteq> k"
    using fileIxById_Some_iff [of fs ia k i] by blast+
  with assms show False by auto
qed

text \<open>
  C5. In a constructed status the file list is the one given, and the index maps an
  id to a position exactly when that position is the last one in the list holding a
  file of this id. So for a file with no later file of the same id both lookups by
  its id return its position and the file itself, and a position whose file has a
  later duplicate is returned for no id at all, while the file is still in the list at
  that position. The constructor has no failing branch: it returns a status for every
  list, duplicates or not.
\<close>

theorem fileIxById_last_write_wins:
  "files (WorkingDirectoryStatus_new fs ia) = fs \<and>
   (fileIxById (WorkingDirectoryStatus_new fs ia) k = Some i \<longleftrightarrow>
      i < length fs \<and> id' (fs ! i) = k \<and>
      (\<forall>j. i < j \<and> j < length fs \<longrightarrow> id' (fs ! j) \<noteq> k)) \<and>
   (i < length fs \<and> (\<forall>j. i < j \<and> j < length fs \<longrightarrow> id' (fs ! j) \<noteq> id' (fs ! i)) \<longrightarrow>
      findFileIndexByID (WorkingDirectoryStatus_new fs ia) (id' (fs ! i)) = int i \<and>
      findFileWithID (WorkingDirectoryStatus_new fs ia) (id' (fs ! i)) = Some (fs ! i)) \<and>
   (i < l \<and> l < length fs \<and> id' (fs ! i) = id' (fs ! l) \<longrightarrow>
      (\<forall>k'. findFileIndexByID (WorkingDirectoryStatus_new fs ia) k' \<noteq> int i) \<and>
      files (WorkingDirectoryStatus_new fs ia) ! i = fs ! i)"
proof -
  have a: "files (WorkingDirectoryStatus_new fs ia) = fs"
    by (simp add: WorkingDirectoryStatus_new_fields)
  note b = fileIxById_Some_iff [of fs ia k i]
  have c: "i < length fs \<and> (\<forall>j. i < j \<and> j < length fs \<longrightarrow> id' (fs ! j) \<noteq> id' (fs ! i)) \<longrightarrow>
      findFileIndexByID (WorkingDirectoryStatus_new fs ia) (id' (fs ! i)) = int i \<and>
      findFileWithID (WorkingDirectoryStatus_new fs ia) (id' (fs ! i)) = Some (fs ! i)"
    using find_at_last_index [of i fs ia] by blast
  have d: "i < l \<and> l < length fs \<and> id' (fs ! i) = id' (fs ! l) \<longrightarrow>
      (\<forall>k'. findFileIndexByID (WorkingDirectoryStatus_new fs ia) k' \<noteq> int i) \<and>
      files (WorkingDirectoryStatus_new fs ia) ! i = fs ! i"
    using shadowed_index_unreachable [of i l fs ia] a by auto
  from a b c d show ?thesis by blast
qed

theorem fileIxById_last_write_wins_witness:
  "findFileIndexByID (WorkingDirectoryStatus_new
      [WorkingDirectoryFileChange_new ''x'' (NewStatus :: unit AppFileStatus) AllSel,
       WorkingDirectoryFileChange_new ''x'' NewStatus NoneSel] None) ''New+x'' = 1 \<and>
   findFileWithID (WorkingDirectoryStatus_new
      [WorkingDirectoryFileChange_new ''x'' (NewStatus :: unit AppFileStatus) AllSel,
       WorkingDirectoryFileChange_new ''x'' NewStatus NoneSel] None) ''New+x''
     = Some (WorkingDirectoryFileChange_new ''x'' NewStatus NoneSel) \<and>
   findFileIndexByID (WorkingDirectoryStatus_new
      [WorkingDirectoryFileChange_new ''x'' (NewStatus :: unit AppFileStatus) AllSel,
       WorkingDirectoryFileChange_new ''x'' NewStatus NoneSel] None) ''New+x'' \<noteq> 0 \<and>
   files (WorkingDirectoryStatus_new
      [WorkingDirectoryFileChange_new ''x'' (NewStatus :: unit AppFileStatus) AllSel,
       WorkingDirectoryFileChange_new ''x'' NewStatus NoneSel] None) ! 0
     = WorkingDirectoryFileChange_new ''x'' NewStatus AllSel"
proof -
  define fs where "fs =
      [WorkingDirectoryFileChange_new ''x'' (NewStatus :: unit AppFileStatus) AllSel,
       WorkingDirectoryFileChange_new ''x'' NewStatus NoneSel]"
  have ids: "id' (fs ! 0) = ''New+x''" "id' (fs ! 1) = ''New+x''" "length fs = 2"
    by (simp_all add: fs_def WorkingDirectoryFileChange_new_fields FileChange_id_cases)
  have last: "(1::nat) < length fs \<and>
      (\<forall>j. 1 < j \<and> j < length fs \<longrightarrow> id' (fs ! j) \<noteq> id' (fs ! 1))"
    using ids by auto
  have dup: "(0::nat) < 1 \<and> 1 < length fs \<and> id' (fs ! 0) = id' (fs ! 1)"
    using ids by simp
  from fileIxById_last_write_wins [of fs None "''New+x''" 1 0] last
       fileIxById_last_write_wins [of fs None "''New+x''" 0 1] dup
  have "findFileIndexByID (WorkingDirectoryStatus_new fs None) ''New+x'' = 1 \<and>
        findFileWithID (WorkingDirectoryStatus_new fs None) ''New+x'' = Some (fs ! 1) \<and>
        findFileIndexByID (WorkingDirectoryStatus_new fs None) ''New+x'' \<noteq> 0 \<and>
        files (WorkingDirectoryStatus_new fs None) ! 0 = fs ! 0"
    using ids by (metis of_nat_0 of_nat_1)
  then show ?thesis by (simp add: fs_def)
qed

text \<open>
  C6. For a constructed status and any id: when some file of the list has the id,
  \<^verbatim>\<open>findFileIndexByID\<close> returns a position of the list whose file has this id and
  \<^verbatim>\<open>findFileWithID\<close> returns the file at that position; when no file has it,
  \<^verbatim>\<open>findFileWithID\<close> returns null and \<^verbatim>\<open>findFileIndexByID\<close> returns -1. Both
  methods only read the index and the list (a \<^verbatim>\<open>Map.get\<close> and an array read, neither
  of which throws), so they are functions of the status and the id to the result.
\<close>

theorem find_by_id_total:
  "(k \<in> id' ` set fs \<longrightarrow>
      (\<exists>i. i < length fs \<and> id' (fs ! i) = k \<and>
           findFileIndexByID (WorkingDirectoryStatus_new fs ia) k = int i \<and>
           findFileWithID (WorkingDirectoryStatus_new fs ia) k = Some (fs ! i))) \<and>
   (k \<notin> id' ` set fs \<longrightarrow>
      findFileWithID (WorkingDirectoryStatus_new fs ia) k = None \<and>
      findFileIndexByID (WorkingDirectoryStatus_new fs ia) k = - 1)"
proof (intro conjI impI)
  assume "k \<in> id' ` set fs"
  from last_index_exists [OF this] obtain i where i: "i < length fs" "id' (fs ! i) = k"
      "\<forall>j. i < j \<and> j < length fs \<longrightarrow> id' (fs ! j) \<noteq> k" by blast
  then have "findFileIndexByID (WorkingDirectoryStatus_new fs ia) k = int i"
    and "findFileWithID (WorkingDirectoryStatus_new fs ia) k = Some (fs ! i)"
    using find_at_last_index [of i fs ia] by auto
  with i(1,2) show "\<exists>i. i < length fs \<and> id' (fs ! i) = k \<and>
           findFileIndexByID (WorkingDirectoryStatus_new fs ia) k = int i \<and>
           findFileWithID (WorkingDirectoryStatus_new fs ia) k = Some (fs ! i)" by blast
next
  assume "k \<notin> id' ` set fs"
  then have N: "fileIxById (WorkingDirectoryStatus_new fs ia) k = None"
    using fileIxById_None_iff [of fs ia k] by blast
  then show "findFileWithID (WorkingDirectoryStatus_new fs ia) k = None"
    by (simp add: findFileWithID_def)
  from N show "findFileIndexByID (WorkingDirectoryStatus_new fs ia) k = - 1"
    by (simp add: findFileIndexByID_def)
qed

theorem find_by_id_total_witness:
  "findFileWithID (WorkingDirectoryStatus_new
      [WorkingDirectoryFileChange_new ''x'' (NewStatus :: unit AppFileStatus) AllSel,
       WorkingDirectoryFileChange_new ''y'' ModifiedStatus NoneSel] None) ''Modified+y''
     = Some (WorkingDirectoryFileChange_new ''y'' ModifiedStatus NoneSel) \<and>
   findFileIndexByID (WorkingDirectoryStatus_new
      [WorkingDirectoryFileChange_new ''x'' (NewStatus :: unit AppFileStatus) AllSel,
       WorkingDirectoryFileChange_new ''y'' ModifiedStatus NoneSel] None) ''Modified+y'' = 1 \<and>
   findFileWithID (WorkingDirectoryStatus_new
      [WorkingDirectoryFileChange_new ''x'' (NewStatus :: unit AppFileStatus) AllSel,
       WorkingDirectoryFileChange_new ''y'' ModifiedStatus NoneSel] None) ''New+y'' = None \<and>
   findFileIndexByID (WorkingDirectoryStatus_new
      [WorkingDirectoryFileChange_new ''x'' (NewStatus :: unit AppFileStatus) AllSel,
       WorkingDirectoryFileChange_new ''y'' ModifiedStatus NoneSel] None) ''New+y'' = - 1"
proof -
  define fs where "fs =
      [WorkingDirectoryFileChange_new ''x'' (NewStatus :: unit AppFileStatus) AllSel,
       WorkingDirectoryFileChange_new ''y'' ModifiedStatus NoneSel]"
  have ids: "id' (fs ! 0) = ''New+x''" "id' (fs ! 1) = ''Modified+y''" "length fs = 2"
    "id' ` set fs = {''New+x'', ''Modified+y''}"
    by (simp_all add: fs_def WorkingDirectoryFileChange_new_fields FileChange_id_cases)
  have present: "''Modified+y'' \<in> id' ` set fs" and absent: "''New+y'' \<notin> id' ` set fs"
    by (simp_all add: ids)
  from find_by_id_total [of "''Modified+y''" fs None] present
  obtain i where i: "i < length fs" "id' (fs ! i) = ''Modified+y''"
     "findFileIndexByID (WorkingDirectoryStatus_new fs None) ''Modified+y'' = int i"
     "findFileWithID (WorkingDirectoryStatus_new fs None) ''Modified+y'' = Some (fs ! i)"
    by blast
  have "i = 1"
  proof (cases "i = 0")
    case True
    with i(2) ids(1) show ?thesis by simp
  next
    case False
    with i(1) ids(3) show ?thesis by simp
  qed
  with i have p: "findFileIndexByID (WorkingDirectoryStatus_new fs None) ''Modified+y'' = 1"
     "findFileWithID (WorkingDirectoryStatus_new fs None) ''Modified+y'' = Some (fs ! 1)"
    by simp_all
  from find_by_id_total [of "''New+y''" fs None] absent
  have a: "findFileWithID (WorkingDirectoryStatus_new fs None) ''New+y'' = None"
     "findFileIndexByID (WorkingDirectoryStatus_new fs None) ''New+y'' = - 1"
    by blast+
  from p a show ?thesis by (simp add: fs_def)
qed

subsection \<open>Colliding ids\<close>

text \<open>
  C9. The id does not determine the pair of path and oldPath: the rename of c to a+b
  and the rename of b+c to a both have the id Renamed+a+b+c. In a status holding the
  two files, in this order, both lookups by that id give the second file and its
  position 1; the first file, a different one, is not found.
\<close>

theorem FileChange_id_not_injective:
  "id' (FileChange_new ''a+b'' (RenamedStatus ''c'' :: 'c AppFileStatus)) = ''Renamed+a+b+c'' \<and>
   id' (FileChange_new ''a'' (RenamedStatus ''b+c'' :: 'c AppFileStatus)) = ''Renamed+a+b+c'' \<and>
   (''a+b'', ''c'') \<noteq> (''a'', ''b+c'') \<and>
   WorkingDirectoryFileChange_new ''a+b'' (RenamedStatus ''c'' :: 'c AppFileStatus) s1 \<noteq>
     WorkingDirectoryFileChange_new ''a'' (RenamedStatus ''b+c'') s2 \<and>
   findFileIndexByID
     (WorkingDirectoryStatus_new
        [WorkingDirectoryFileChange_new ''a+b'' (RenamedStatus ''c'' :: 'c AppFileStatus) s1,
         WorkingDirectoryFileChange_new ''a'' (RenamedStatus ''b+c'') s2] ia)
     ''Renamed+a+b+c'' = 1 \<and>
   findFileWithID
     (WorkingDirectoryStatus_new
        [WorkingDirectoryFileChange_new ''a+b'' (RenamedStatus ''c'' :: 'c AppFileStatus) s1,
         WorkingDirectoryFileChange_new ''a'' (RenamedStatus ''b+c'') s2] ia)
     ''Renamed+a+b+c'' = Some (WorkingDirectoryFileChange_new ''a'' (RenamedStatus ''b+c'') s2)"
proof -
  have neq: "WorkingDirectoryFileChange_new ''a+b'' (RenamedStatus ''c'' :: 'c AppFileStatus) s1 \<noteq>
     WorkingDirectoryFileChange_new ''a'' (RenamedStatus ''b+c'') s2"
  proof
    assume "WorkingDirectoryFileChange_new ''a+b'' (RenamedStatus ''c'' :: 'c AppFileStatus) s1 =
     WorkingDirectoryFileChange_new ''a'' (RenamedStatus ''b+c'') s2"
    then have "path (WorkingDirectoryFileChange_new ''a+b'' (RenamedStatus ''c'' :: 'c AppFileStatus) s1) =
     path (WorkingDirectoryFileChange_new ''a'' (RenamedStatus ''b+c'' :: 'c AppFileStatus) s2)"
      by simp
    then show False by (simp add: WorkingDirectoryFileChange_new_fields)
  qed
  then show ?thesis
    by (simp add: FileChange_new_def FileChange_id_cases findFileIndexByID_def findFileWithID_def
      WorkingDirectoryStatus_new_fields WorkingDirectoryFileChange_new_fields)
qed

end
